theory Spec2Isabelle
  imports Complex_Main "HOL-Library.Word"
begin

section \<open>Data model of \<open>src/index.tsx\<close>\<close>

text \<open>
  The page is one React component \<open>App\<close> with six \<open>useState\<close> cells and two
  \<open>useRef\<close> cells, one helper \<open>blobToBase64\<close> and four handlers
  (\<open>startRecording\<close>, \<open>stopRecording\<close>, \<open>translateAudio\<close>, \<open>reset\<close>).
  Every handler is a sequence of synchronous segments separated by \<open>await\<close>; each
  segment is one function on the configuration below, and the functions of the host
  platform (microphone, \<open>MediaRecorder\<close>, \<open>FileReader\<close>, the inference SDK,
  \<open>JSON.parse\<close>) enter as outcomes chosen by the platform.
\<close>

type_synonym byte = "8 word"

text \<open>A \<open>Blob\<close>: its bytes and its media type.\<close>

record blob =
  blob_bytes :: "byte list"
  blob_type :: string

text \<open>
  A value as \<open>JSON.parse\<close> returns it. A number is the rational value of the double
  it denotes (both zeros are \<open>0\<close>); an object is the list of its own properties.
\<close>

datatype json =
    JNull
  | JBool bool
  | JNum rat
  | JStr string
  | JArr "json list"
  | JObj "(string \<times> json) list"

text \<open>JavaScript truthiness, as used by \<open>!result\<close> and \<open>result && ...\<close> in the view.\<close>

fun truthy :: "json \<Rightarrow> bool" where
  "truthy JNull = False"
| "truthy (JBool b) = b"
| "truthy (JNum q) = (q \<noteq> 0)"
| "truthy (JStr s) = (s \<noteq> [])"
| "truthy (JArr vs) = True"
| "truthy (JObj kvs) = True"

text \<open>
  The two literals passed to \<open>setError\<close> (lines 61 and 108 of the source) are Arabic
  sentences; each is represented by a constructor.
\<close>

datatype message =
    MicrophoneMessage   \<comment> \<open>line 61: asks the user to allow microphone access\<close>
  | ProcessingMessage   \<comment> \<open>line 108: an error occurred during processing, try again\<close>

text \<open>The argument of \<open>ai.models.generateContent\<close> (lines 81 to 100).\<close>

record request =
  req_model :: string
  req_mimeType :: string
  req_data :: "string option"
  req_text :: string
  req_responseMimeType :: string
  req_properties :: "string list"
  req_required :: "string list"

definition make_request :: "string option \<Rightarrow> request" where
  "make_request base64Audio =
     \<lparr> req_model = ''gemini-2.5-flash'',
       req_mimeType = ''audio/webm'',
       req_data = base64Audio,
       req_text = ''You are a professional academic translator. Transcribe the Arabic audio exactly, then translate it into professional academic English.'',
       req_responseMimeType = ''application/json'',
       req_properties = [''transcription'', ''translation''],
       req_required = [''transcription'', ''translation''] \<rparr>"

section \<open>The platform's data URL of a blob\<close>

text \<open>
  \<open>FileReader.readAsDataURL\<close> yields \<open>data:<type>;base64,<payload>\<close>, the payload
  being the base64 encoding (RFC 4648, with padding) of the blob's bytes.
\<close>

definition base64_alphabet :: string where
  "base64_alphabet =
     ''ABCDEFGHIJKLMNOPQRSTUVWXYZabcdefghijklmnopqrstuvwxyz0123456789+/''"

definition b64_char :: "nat \<Rightarrow> char" where
  "b64_char n = base64_alphabet ! n"

fun index_of :: "'a \<Rightarrow> 'a list \<Rightarrow> nat option" where
  "index_of x [] = None"
| "index_of x (y # ys) =
     (if x = y then Some 0 else map_option Suc (index_of x ys))"

definition b64_index :: "char \<Rightarrow> nat option" where
  "b64_index c = index_of c base64_alphabet"

fun base64_encode :: "byte list \<Rightarrow> string" where
  "base64_encode [] = []"
| "base64_encode [a] =
     [b64_char (unat a div 4), b64_char (unat a mod 4 * 16), CHR ''='', CHR ''='']"
| "base64_encode [a, b] =
     [b64_char (unat a div 4),
      b64_char (unat a mod 4 * 16 + unat b div 16),
      b64_char (unat b mod 16 * 4), CHR ''='']"
| "base64_encode (a # b # c # rest) =
     b64_char (unat a div 4) #
     b64_char (unat a mod 4 * 16 + unat b div 16) #
     b64_char (unat b mod 16 * 4 + unat c div 64) #
     b64_char (unat c mod 64) # base64_encode rest"

text \<open>
  The matching decoder: four characters at a time, padding allowed in the last
  group only; \<open>None\<close> on any text that is not a padded base64 text.
\<close>

definition decode_group :: "char \<Rightarrow> char \<Rightarrow> char \<Rightarrow> char \<Rightarrow> byte list option" where
  "decode_group c0 c1 c2 c3 =
     (case (b64_index c0, b64_index c1) of
        (Some s0, Some s1) \<Rightarrow>
          (if c2 = CHR ''='' then
             (if c3 = CHR ''='' then Some [of_nat (s0 * 4 + s1 div 16)] else None)
           else
             (case b64_index c2 of
                None \<Rightarrow> None
              | Some s2 \<Rightarrow>
                  (if c3 = CHR ''='' then
                     Some [of_nat (s0 * 4 + s1 div 16), of_nat (s1 mod 16 * 16 + s2 div 4)]
                   else
                     (case b64_index c3 of
                        None \<Rightarrow> None
                      | Some s3 \<Rightarrow>
                          Some [of_nat (s0 * 4 + s1 div 16),
                                of_nat (s1 mod 16 * 16 + s2 div 4),
                                of_nat (s2 mod 4 * 64 + s3)]))))
      | _ \<Rightarrow> None)"

fun base64_decode :: "string \<Rightarrow> byte list option" where
  "base64_decode [] = Some []"
| "base64_decode (c0 # c1 # c2 # c3 # rest) =
     (case decode_group c0 c1 c2 c3 of
        None \<Rightarrow> None
      | Some bs \<Rightarrow>
          (if c3 = CHR ''='' then (if rest = [] then Some bs else None)
           else map_option (\<lambda>tl. bs @ tl) (base64_decode rest)))"
| "base64_decode cs = None"

definition data_url :: "blob \<Rightarrow> string" where
  "data_url b = ''data:'' @ blob_type b @ '';base64,'' @ base64_encode (blob_bytes b)"

section \<open>\<open>blobToBase64\<close> (lines 7 to 18)\<close>

text \<open>
  \<open>s.split(sep)\<close> for a one-character separator, and \<open>xs[i]\<close>, which is
  \<open>undefined\<close> (here \<open>None\<close>) out of range.
\<close>

fun js_split :: "char \<Rightarrow> string \<Rightarrow> string list" where
  "js_split sep [] = [[]]"
| "js_split sep (c # cs) =
     (if c = sep then [] # js_split sep cs
      else (case js_split sep cs of
              [] \<Rightarrow> [[c]]
            | s # ss \<Rightarrow> (c # s) # ss))"

fun nth_opt :: "'a list \<Rightarrow> nat \<Rightarrow> 'a option" where
  "nth_opt [] i = None"
| "nth_opt (x # xs) 0 = Some x"
| "nth_opt (x # xs) (Suc i) = nth_opt xs i"

datatype 'a promise = Pending | Resolved 'a | Rejected

definition resolve :: "'a \<Rightarrow> 'a promise \<Rightarrow> 'a promise" where
  "resolve v p = (case p of Pending \<Rightarrow> Resolved v | _ \<Rightarrow> p)"

definition reject :: "'a promise \<Rightarrow> 'a promise" where
  "reject p = (case p of Pending \<Rightarrow> Rejected | _ \<Rightarrow> p)"

text \<open>
  The reader fires \<open>load\<close> then \<open>loadend\<close> on success (its \<open>result\<close> is the data
  URL), and \<open>error\<close> then \<open>loadend\<close> on failure (its \<open>result\<close> is null).
\<close>

datatype reader_event = LoadEvent | ErrorEvent | LoadEndEvent

definition readAsDataURL :: "bool \<Rightarrow> blob \<Rightarrow> string option \<times> reader_event list" where
  "readAsDataURL readable b =
     (if readable then (Some (data_url b), [LoadEvent, LoadEndEvent])
      else (None, [ErrorEvent, LoadEndEvent]))"

text \<open>
  The handlers the source installs: \<open>onloadend\<close> resolves with
  \<open>result.split(',')[1]\<close> (on a null result the handler throws before it calls
  \<open>resolve\<close>), \<open>onerror\<close> rejects; \<open>load\<close> has no handler.
\<close>

fun reader_handler ::
  "string option \<Rightarrow> reader_event \<Rightarrow> string option promise \<Rightarrow> string option promise" where
  "reader_handler res LoadEndEvent p =
     (case res of
        None \<Rightarrow> p
      | Some base64String \<Rightarrow> resolve (nth_opt (js_split CHR '','' base64String) 1) p)"
| "reader_handler res ErrorEvent p = reject p"
| "reader_handler res LoadEvent p = p"

definition blobToBase64 :: "bool \<Rightarrow> blob \<Rightarrow> string option promise" where
  "blobToBase64 readable b =
     (case readAsDataURL readable b of
        (res, events) \<Rightarrow> fold (reader_handler res) events Pending)"

section \<open>The component \<open>App\<close> (lines 20 to 119)\<close>

text \<open>
  What the platform holds for the component: the \<open>MediaRecorder\<close>s it has created
  (numbered in creation order, each with the stream it was built on), the
  continuations waiting on an \<open>await\<close>, and the calls made so far.
\<close>

datatype recorder_state =
    RecRecording   \<comment> \<open>\<open>start()\<close> succeeded\<close>
  | RecStopping    \<comment> \<open>stopped; \<open>dataavailable\<close> not yet fired\<close>
  | RecFlushed     \<comment> \<open>\<open>dataavailable\<close> fired; \<open>stop\<close> not yet fired\<close>
  | RecInactive

datatype task =
    AwaitMicrophone        \<comment> \<open>line 39\<close>
  | AwaitEncode blob       \<comment> \<open>line 78\<close>
  | AwaitRemote request    \<comment> \<open>line 81\<close>

datatype effect =
    CallGetUserMedia
  | NewMediaRecorder nat
  | RecorderStart nat
  | RecorderStop nat
  | CreateObjectURL blob
  | StopTracks nat
  | ReadAsDataURL blob
  | NewGoogleGenAI
  | GenerateContent request
  | JsonParse string
  | ConsoleError

text \<open>
  The six state cells (lines 21 to 26), the two refs (lines 28 and 29) and the
  platform's side. \<open>result\<close> holds whatever \<open>JSON.parse\<close> returned; \<open>null\<close> is
  \<open>JNull\<close>.
\<close>

record config =
  isRecording :: bool
  isProcessing :: bool
  audioUrl :: "string option"
  audioBlob :: "blob option"
  result :: json
  error :: "message option"
  mediaRecorderRef :: "nat option"
  chunksRef :: "blob list"
  recorders :: "recorder_state list"
  pending :: "task list"
  effects :: "effect list"

definition initial :: config where
  "initial =
     \<lparr> isRecording = False, isProcessing = False, audioUrl = None, audioBlob = None,
       result = JNull, error = None, mediaRecorderRef = None, chunksRef = [],
       recorders = [], pending = [], effects = [] \<rparr>"

definition emit :: "effect list \<Rightarrow> config \<Rightarrow> config" where
  "emit es c = c\<lparr>effects := effects c @ es\<rparr>"

definition suspend :: "task \<Rightarrow> config \<Rightarrow> config" where
  "suspend t c = c\<lparr>pending := pending c @ [t]\<rparr>"

definition drop_task :: "nat \<Rightarrow> config \<Rightarrow> config" where
  "drop_task i c = c\<lparr>pending := take i (pending c) @ drop (Suc i) (pending c)\<rparr>"

subsection \<open>\<open>startRecording\<close> (lines 31 to 63)\<close>

text \<open>How the \<open>try\<close> block of lines 38 to 58 can go.\<close>

datatype mic_outcome =
    MicRejected           \<comment> \<open>\<open>getUserMedia\<close> rejects\<close>
  | RecorderCtorThrows    \<comment> \<open>a stream is granted, \<open>new MediaRecorder\<close> throws\<close>
  | RecorderStartThrows   \<comment> \<open>\<open>mediaRecorder.start()\<close> throws\<close>
  | RecorderStarted

text \<open>Lines 32 to 39, up to the \<open>await\<close>.\<close>

definition startRecording_begin :: "config \<Rightarrow> config" where
  "startRecording_begin c =
     suspend AwaitMicrophone
       (emit [CallGetUserMedia]
         (c\<lparr>error := None, result := JNull, audioUrl := None, audioBlob := None,
            chunksRef := []\<rparr>))"

text \<open>The \<open>catch\<close> block, lines 59 to 62.\<close>

definition startRecording_catch :: "config \<Rightarrow> config" where
  "startRecording_catch c = (emit [ConsoleError] c)\<lparr>error := Some MicrophoneMessage\<rparr>"

text \<open>Lines 40 to 62, after the \<open>await\<close>.\<close>

definition startRecording_resume :: "mic_outcome \<Rightarrow> config \<Rightarrow> config" where
  "startRecording_resume out c =
     (let r = length (recorders c) in
      case out of
        MicRejected \<Rightarrow> startRecording_catch c
      | RecorderCtorThrows \<Rightarrow> startRecording_catch c
      | RecorderStartThrows \<Rightarrow>
          startRecording_catch
            ((emit [NewMediaRecorder r, RecorderStart r] c)
               \<lparr>mediaRecorderRef := Some r, recorders := recorders c @ [RecInactive]\<rparr>)
      | RecorderStarted \<Rightarrow>
          (emit [NewMediaRecorder r, RecorderStart r] c)
            \<lparr>mediaRecorderRef := Some r, recorders := recorders c @ [RecRecording],
             isRecording := True\<rparr>)"

text \<open>\<open>ondataavailable\<close>, lines 43 to 47.\<close>

definition ondataavailable :: "blob \<Rightarrow> config \<Rightarrow> config" where
  "ondataavailable chunk c =
     (if length (blob_bytes chunk) > 0 then c\<lparr>chunksRef := chunksRef c @ [chunk]\<rparr> else c)"

text \<open>\<open>onstop\<close> of recorder \<open>r\<close>, lines 49 to 55; \<open>url\<close> is what \<open>URL.createObjectURL\<close> returns.\<close>

definition new_Blob :: "blob list \<Rightarrow> string \<Rightarrow> blob" where
  "new_Blob parts ty = \<lparr> blob_bytes = concat (map blob_bytes parts), blob_type = ty \<rparr>"

definition onstop :: "nat \<Rightarrow> string \<Rightarrow> config \<Rightarrow> config" where
  "onstop r url c =
     (let b = new_Blob (chunksRef c) ''audio/webm'' in
      (emit [CreateObjectURL b, StopTracks r] c)\<lparr>audioBlob := Some b, audioUrl := Some url\<rparr>)"

subsection \<open>\<open>stopRecording\<close> (lines 65 to 70)\<close>

text \<open>\<open>MediaRecorder.stop()\<close> on an inactive recorder does nothing.\<close>

definition recorder_stop :: "nat \<Rightarrow> recorder_state list \<Rightarrow> recorder_state list" where
  "recorder_stop r rs = (if nth_opt rs r = Some RecRecording then rs[r := RecStopping] else rs)"

definition stopRecording :: "config \<Rightarrow> config" where
  "stopRecording c =
     (case mediaRecorderRef c of
        None \<Rightarrow> c
      | Some r \<Rightarrow>
          (if isRecording c then
             (emit [RecorderStop r] c)
               \<lparr>recorders := recorder_stop r (recorders c), isRecording := False\<rparr>
           else c))"

subsection \<open>\<open>translateAudio\<close> (lines 72 to 112)\<close>

datatype remote_outcome =
    RemoteThrows                      \<comment> \<open>\<open>generateContent\<close> rejects, or reading \<open>response.text\<close> throws\<close>
  | RemoteResponds "string option"    \<comment> \<open>\<open>response.text\<close>, possibly \<open>undefined\<close>\<close>

text \<open>Lines 74 to 78, up to the first \<open>await\<close>; \<open>b\<close> is the non-null \<open>audioBlob\<close>.\<close>

definition translateAudio_begin :: "blob \<Rightarrow> config \<Rightarrow> config" where
  "translateAudio_begin b c =
     suspend (AwaitEncode b)
       (emit [ReadAsDataURL b] (c\<lparr>isProcessing := True, error := None\<rparr>))"

text \<open>The \<open>finally\<close> block (lines 109 to 111), and \<open>catch\<close> followed by \<open>finally\<close> (lines 106 to 111).\<close>

definition translateAudio_finally :: "config \<Rightarrow> config" where
  "translateAudio_finally c = c\<lparr>isProcessing := False\<rparr>"

definition translateAudio_catch :: "config \<Rightarrow> config" where
  "translateAudio_catch c =
     translateAudio_finally ((emit [ConsoleError] c)\<lparr>error := Some ProcessingMessage\<rparr>)"

text \<open>
  Lines 78 to 100, from the settled \<open>blobToBase64\<close> promise to the second \<open>await\<close>;
  \<open>sdk\<close> says whether \<open>new GoogleGenAI\<close> returns. A promise that is still
  pending does not resume the handler (and \<open>blobToBase64\<close> always settles, see
  \<open>blobToBase64_settles\<close> below).
\<close>

definition translateAudio_encoded :: "string option promise \<Rightarrow> bool \<Rightarrow> config \<Rightarrow> config" where
  "translateAudio_encoded p sdk c =
     (case p of
        Pending \<Rightarrow> c
      | Rejected \<Rightarrow> translateAudio_catch c
      | Resolved base64Audio \<Rightarrow>
          (if sdk then
             suspend (AwaitRemote (make_request base64Audio))
               (emit [NewGoogleGenAI, GenerateContent (make_request base64Audio)] c)
           else translateAudio_catch (emit [NewGoogleGenAI] c)))"

text \<open>Lines 102 to 111; \<open>parse\<close> is \<open>JSON.parse\<close>, \<open>None\<close> where it throws.\<close>

definition translateAudio_responded ::
  "(string \<Rightarrow> json option) \<Rightarrow> remote_outcome \<Rightarrow> config \<Rightarrow> config" where
  "translateAudio_responded parse out c =
     (case out of
        RemoteThrows \<Rightarrow> translateAudio_catch c
      | RemoteResponds None \<Rightarrow> translateAudio_finally c
      | RemoteResponds (Some jsonText) \<Rightarrow>
          (if jsonText = [] then translateAudio_finally c
           else
             (case parse jsonText of
                None \<Rightarrow> translateAudio_catch (emit [JsonParse jsonText] c)
              | Some v \<Rightarrow>
                  translateAudio_finally ((emit [JsonParse jsonText] c)\<lparr>result := v\<rparr>))))"

subsection \<open>\<open>reset\<close> (lines 114 to 119)\<close>

definition reset :: "config \<Rightarrow> config" where
  "reset c = c\<lparr>result := JNull, audioBlob := None, audioUrl := None, error := None\<rparr>"

section \<open>The handlers run without interleaving\<close>

text \<open>
  One invocation of a handler, with nothing else happening between its segments.
  The record says how the platform answers during that invocation.
\<close>

record platform =
  microphone :: mic_outcome
  blob_readable :: "blob \<Rightarrow> bool"
  sdk_constructs :: bool
  generateContent :: "request \<Rightarrow> remote_outcome"
  JSON_parse :: "string \<Rightarrow> json option"

definition startRecording :: "platform \<Rightarrow> config \<Rightarrow> config" where
  "startRecording P c =
     (let n = length (pending c) in
      startRecording_resume (microphone P) (drop_task n (startRecording_begin c)))"

definition translateAudio :: "platform \<Rightarrow> config \<Rightarrow> config" where
  "translateAudio P c =
     (case audioBlob c of
        None \<Rightarrow> c
      | Some b \<Rightarrow>
          (let n = length (pending c);
               c1 = drop_task n (translateAudio_begin b c);
               c2 = translateAudio_encoded (blobToBase64 (blob_readable P b) b)
                      (sdk_constructs P) c1
           in case nth_opt (pending c2) n of
                Some (AwaitRemote req) \<Rightarrow>
                  translateAudio_responded (JSON_parse P) (generateContent P req)
                    (drop_task n c2)
              | _ \<Rightarrow> c2))"

section \<open>The view and the event loop (lines 186 to 223)\<close>

datatype button = MainButton | RefreshButton | TranslateButton | ResetButton

text \<open>
  A button can be clicked when it is rendered and not disabled: the recording panel
  is rendered under \<open>!result\<close> (line 187), the result panel with the reset button
  under \<open>result\<close> (line 210); the main button is disabled while processing (line 195),
  the refresh button is rendered when not recording and a blob is held (line 200), the
  translate button when a blob is held and not recording, disabled while processing
  (lines 202 and 203). Each event is handled against the view rendered from the
  current state: the state updates of a click are committed before the next event.
\<close>

fun clickable :: "config \<Rightarrow> button \<Rightarrow> bool" where
  "clickable c MainButton = (\<not> truthy (result c) \<and> \<not> isProcessing c)"
| "clickable c RefreshButton =
     (\<not> truthy (result c) \<and> \<not> isRecording c \<and> audioBlob c \<noteq> None)"
| "clickable c TranslateButton =
     (\<not> truthy (result c) \<and> audioBlob c \<noteq> None \<and> \<not> isRecording c \<and> \<not> isProcessing c)"
| "clickable c ResetButton = truthy (result c)"

text \<open>The synchronous part of each \<open>onClick\<close>.\<close>

fun onClick :: "config \<Rightarrow> button \<Rightarrow> config" where
  "onClick c MainButton = (if isRecording c then stopRecording c else startRecording_begin c)"
| "onClick c RefreshButton = startRecording_begin c"
| "onClick c TranslateButton =
     (case audioBlob c of None \<Rightarrow> c | Some b \<Rightarrow> translateAudio_begin b c)"
| "onClick c ResetButton = reset c"

text \<open>
  What can happen next: a click, the settling of a pending \<open>await\<close> (by its position
  among the pending ones, with the platform's answer), or an event of a recorder.
\<close>

datatype event =
    Click button
  | MicSettles nat mic_outcome
  | EncodeSettles nat bool bool
  | RemoteSettles nat remote_outcome
  | TrackEnded nat
  | DataAvailable nat blob
  | StopEvent nat string

definition set_recorder :: "nat \<Rightarrow> recorder_state \<Rightarrow> config \<Rightarrow> config" where
  "set_recorder r st c = c\<lparr>recorders := (recorders c)[r := st]\<rparr>"

fun step :: "(string \<Rightarrow> json option) \<Rightarrow> config \<Rightarrow> event \<Rightarrow> config option" where
  "step parse c (Click b) = (if clickable c b then Some (onClick c b) else None)"
| "step parse c (MicSettles i out) =
     (case nth_opt (pending c) i of
        Some AwaitMicrophone \<Rightarrow> Some (startRecording_resume out (drop_task i c))
      | _ \<Rightarrow> None)"
| "step parse c (EncodeSettles i readable sdk) =
     (case nth_opt (pending c) i of
        Some (AwaitEncode b) \<Rightarrow>
          (case blobToBase64 readable b of
             Pending \<Rightarrow> None
           | p \<Rightarrow> Some (translateAudio_encoded p sdk (drop_task i c)))
      | _ \<Rightarrow> None)"
| "step parse c (RemoteSettles i out) =
     (case nth_opt (pending c) i of
        Some (AwaitRemote req) \<Rightarrow> Some (translateAudio_responded parse out (drop_task i c))
      | _ \<Rightarrow> None)"
| "step parse c (TrackEnded r) =
     (if nth_opt (recorders c) r = Some RecRecording
      then Some (set_recorder r RecStopping c) else None)"
| "step parse c (DataAvailable r chunk) =
     (if nth_opt (recorders c) r = Some RecStopping
      then Some (ondataavailable chunk (set_recorder r RecFlushed c)) else None)"
| "step parse c (StopEvent r url) =
     (if nth_opt (recorders c) r = Some RecFlushed
      then Some (onstop r url (set_recorder r RecInactive c)) else None)"

fun run :: "(string \<Rightarrow> json option) \<Rightarrow> config \<Rightarrow> event list \<Rightarrow> config option" where
  "run parse c [] = Some c"
| "run parse c (e # es) =
     (case step parse c e of None \<Rightarrow> None | Some c' \<Rightarrow> run parse c' es)"

text \<open>The submissions in flight: the pending continuations of \<open>translateAudio\<close>.\<close>

fun is_submission :: "task \<Rightarrow> bool" where
  "is_submission AwaitMicrophone = False"
| "is_submission (AwaitEncode b) = True"
| "is_submission (AwaitRemote req) = True"

definition submissions :: "config \<Rightarrow> task list" where
  "submissions c = filter is_submission (pending c)"

section \<open>Properties of a response and sample inputs\<close>

text \<open>Whether a parsed response has the property \<open>k\<close>.\<close>

fun has_field :: "json \<Rightarrow> string \<Rightarrow> bool" where
  "has_field (JObj kvs) k = (map_of kvs k \<noteq> None)"
| "has_field v k = False"

definition has_required_fields :: "json \<Rightarrow> bool" where
  "has_required_fields v = list_all (has_field v) (req_required (make_request None))"

text \<open>When the \<open>try\<close> block of \<open>translateAudio\<close> (lines 77 to 105) throws, for blob \<open>b\<close>.\<close>

definition submission_throws :: "platform \<Rightarrow> blob \<Rightarrow> bool" where
  "submission_throws P b =
     (case blobToBase64 (blob_readable P b) b of
        Resolved base64Audio \<Rightarrow>
          (\<not> sdk_constructs P \<or>
           (case generateContent P (make_request base64Audio) of
              RemoteThrows \<Rightarrow> True
            | RemoteResponds None \<Rightarrow> False
            | RemoteResponds (Some jsonText) \<Rightarrow> jsonText \<noteq> [] \<and> JSON_parse P jsonText = None))
      | _ \<Rightarrow> True)"

text \<open>A three-byte chunk, the recording \<open>onstop\<close> builds from it, and the empty recording.\<close>

definition sample_chunk :: blob where
  "sample_chunk = \<lparr> blob_bytes = [0x1A, 0x45, 0xDF], blob_type = ''audio/webm;codecs=opus'' \<rparr>"

definition sample_blob :: blob where
  "sample_blob = new_Blob [sample_chunk] ''audio/webm''"

definition empty_blob :: blob where
  "empty_blob = new_Blob [] ''audio/webm''"

text \<open>
  A response text with only one of the two fields, and the value \<open>JSON.parse\<close>
  returns for it and for a complete response.
\<close>

definition partial_text :: string where
  \<open>partial_text = ''{"transcription":"salam"}''\<close>

definition partial_value :: json where
  "partial_value = JObj [(''transcription'', JStr ''salam'')]"

definition complete_text :: string where
  \<open>complete_text = ''{"transcription":"salam","translation":"Peace"}''\<close>

definition complete_value :: json where
  "complete_value = JObj [(''transcription'', JStr ''salam''), (''translation'', JStr ''Peace'')]"

definition sample_parse :: "string \<Rightarrow> json option" where
  "sample_parse = map_of [(partial_text, partial_value), (complete_text, complete_value)]"

text \<open>Platforms answering with a fixed response text, and one whose remote call fails.\<close>

definition answering :: "string option \<Rightarrow> platform" where
  "answering t =
     \<lparr> microphone = RecorderStarted, blob_readable = (\<lambda>b. True), sdk_constructs = True,
       generateContent = (\<lambda>req. RemoteResponds t), JSON_parse = sample_parse \<rparr>"

definition failing :: platform where
  "failing = (answering None)\<lparr>generateContent := (\<lambda>req. RemoteThrows)\<rparr>"

text \<open>
  A session that records \<open>sample_blob\<close>: start, permission granted, stop, the
  recorder's two events. \<open>captured\<close> is the configuration it ends in.
\<close>

definition capture_events :: "event list" where
  "capture_events =
     [Click MainButton, MicSettles 0 RecorderStarted, Click MainButton,
      DataAvailable 0 sample_chunk, StopEvent 0 ''blob:sample'']"

definition captured :: config where
  "captured =
     \<lparr> isRecording = False, isProcessing = False, audioUrl = Some ''blob:sample'',
       audioBlob = Some sample_blob, result = JNull, error = None,
       mediaRecorderRef = Some 0, chunksRef = [sample_chunk],
       recorders = [RecInactive], pending = [],
       effects = [CallGetUserMedia, NewMediaRecorder 0, RecorderStart 0, RecorderStop 0,
                  CreateObjectURL sample_blob, StopTracks 0] \<rparr>"

text \<open>The configuration right after the translate button is clicked in \<open>captured\<close>.\<close>

definition submitted :: config where
  "submitted = translateAudio_begin sample_blob captured"

text \<open>
  The invariant of the event loop: \<open>isProcessing\<close> is set exactly while one
  submission is in flight, and never more than one is.
\<close>

definition processing_matches :: "config \<Rightarrow> bool" where
  "processing_matches c = (length (submissions c) = (if isProcessing c then 1 else 0))"

text \<open>Every blob the page holds or submits has the type \<open>onstop\<close> gives it.\<close>

fun webm_task :: "task \<Rightarrow> bool" where
  "webm_task (AwaitEncode b) = (blob_type b = ''audio/webm'')"
| "webm_task t = True"

definition webm_only :: "config \<Rightarrow> bool" where
  "webm_only c =
     ((case audioBlob c of None \<Rightarrow> True | Some b \<Rightarrow> blob_type b = ''audio/webm'') \<and>
      list_all webm_task (pending c))"

section \<open>Base64: the decoder inverts the encoder\<close>

lemma length_alphabet: "length base64_alphabet = 64"
  by (simp add: base64_alphabet_def)

lemma pad_not_in: "CHR ''='' \<notin> set base64_alphabet"
  by (simp add: base64_alphabet_def)

lemma comma_not_in: "CHR '','' \<notin> set base64_alphabet"
  by (simp add: base64_alphabet_def)

lemma unat_byte_less: "unat (a :: byte) < 256"
  using unsigned_less [of a] by simp

lemma distinct_alphabet: "distinct base64_alphabet"
  by code_simp

lemma sextet_hi: "t < k \<Longrightarrow> (r * k + t) div k = (r::nat)"
  by simp

lemma sextet_lo: "t < k \<Longrightarrow> (r * k + t) mod k = (t::nat)"
  by simp

lemma byte_div16: "b < 256 \<Longrightarrow> b div 16 < (16::nat)"
  by (simp add: less_mult_imp_div_less)

lemma byte_div64: "b < 256 \<Longrightarrow> b div 64 < (4::nat)"
  by (simp add: less_mult_imp_div_less)

lemma byte_div4: "b < 256 \<Longrightarrow> b div 4 < (64::nat)"
  by (simp add: less_mult_imp_div_less)

lemma sextet1_less: "b < 256 \<Longrightarrow> a mod 4 * 16 + b div 16 < (64::nat)"
proof -
  assume "b < 256"
  then have "b div 16 < 16" by (rule byte_div16)
  moreover have "a mod 4 < 4" by simp
  then have "a mod 4 \<le> 3" by linarith
  then have "a mod 4 * 16 \<le> 3 * 16" by (rule mult_le_mono1)
  ultimately show ?thesis by linarith
qed

lemma sextet2_less: "c < 256 \<Longrightarrow> b mod 16 * 4 + c div 64 < (64::nat)"
proof -
  assume "c < 256"
  then have "c div 64 < 4" by (rule byte_div64)
  moreover have "b mod 16 < 16" by simp
  then have "b mod 16 \<le> 15" by linarith
  then have "b mod 16 * 4 \<le> 15 * 4" by (rule mult_le_mono1)
  ultimately show ?thesis by linarith
qed

lemma regroup_first: "b < 256 \<Longrightarrow> a div 4 * 4 + (a mod 4 * 16 + b div 16) div 16 = (a::nat)"
  by (simp add: sextet_hi byte_div16)

lemma regroup_second: "b < 256 \<Longrightarrow> c < 256 \<Longrightarrow>
  (a mod 4 * 16 + b div 16) mod 16 * 16 + (b mod 16 * 4 + c div 64) div 4 = (b::nat)"
  by (simp add: sextet_hi sextet_lo byte_div16 byte_div64)

lemma regroup_third: "c < 256 \<Longrightarrow> (b mod 16 * 4 + c div 64) mod 4 * 64 + c mod 64 = (c::nat)"
proof -
  assume c: "c < 256"
  have "(b mod 16 * 4 + c div 64) mod 4 = c div 64"
    using c by (simp add: sextet_lo byte_div64)
  then show ?thesis by simp
qed

lemma regroup_first_padded: "a div 4 * 4 + (a mod 4 * 16) div 16 = (a::nat)"
  by simp

lemma regroup_second_padded: "b < 256 \<Longrightarrow>
  (a mod 4 * 16 + b div 16) mod 16 * 16 + (b mod 16 * 4) div 4 = (b::nat)"
  by (simp add: sextet_hi sextet_lo byte_div16 byte_div64)

lemma index_of_nth: "distinct xs \<Longrightarrow> n < length xs \<Longrightarrow> index_of (xs ! n) xs = Some n"
proof (induction xs arbitrary: n)
  case Nil
  then show ?case by simp
next
  case (Cons y ys)
  show ?case
  proof (cases n)
    case 0
    then show ?thesis by simp
  next
    case (Suc m)
    with Cons.prems have "ys ! m \<in> set ys" "y \<notin> set ys" by auto
    then have "ys ! m \<noteq> y" by auto
    with Cons Suc show ?thesis by simp
  qed
qed

lemma b64_index_char: "n < 64 \<Longrightarrow> b64_index (b64_char n) = Some n"
  unfolding b64_index_def b64_char_def
  by (rule index_of_nth) (simp_all add: distinct_alphabet length_alphabet)

lemma b64_char_in: "n < 64 \<Longrightarrow> b64_char n \<in> set base64_alphabet"
  unfolding b64_char_def by (simp add: length_alphabet)

lemma b64_char_not_pad: "n < 64 \<Longrightarrow> b64_char n \<noteq> CHR ''=''"
  using b64_char_in pad_not_in by metis

lemma b64_char_not_comma: "n < 64 \<Longrightarrow> b64_char n \<noteq> CHR '',''"
  using b64_char_in comma_not_in by metis

lemma byte_of_unat: "(of_nat (unat a) :: byte) = a"
  by simp

lemma decode_group3:
  "decode_group (b64_char (unat a div 4))
     (b64_char (unat a mod 4 * 16 + unat b div 16))
     (b64_char (unat b mod 16 * 4 + unat c div 64))
     (b64_char (unat c mod 64)) = Some [a, b, c]"
proof -
  have la: "unat a < 256" and lb: "unat b < 256" and lc: "unat c < 256"
    by (rule unat_byte_less)+
  have s3: "unat c mod 64 < 64" by simp
  note s0 = byte_div4 [OF la] and s1 = sextet1_less [OF lb, of "unat a"]
    and s2 = sextet2_less [OF lc, of "unat b"]
  have w0: "(of_nat (unat a div 4 * 4 + (unat a mod 4 * 16 + unat b div 16) div 16) :: byte) = a"
    by (simp only: regroup_first [OF lb] byte_of_unat)
  have w1: "(of_nat ((unat a mod 4 * 16 + unat b div 16) mod 16 * 16
      + (unat b mod 16 * 4 + unat c div 64) div 4) :: byte) = b"
    by (simp only: regroup_second [OF lb lc] byte_of_unat)
  have w2: "(of_nat ((unat b mod 16 * 4 + unat c div 64) mod 4 * 64 + unat c mod 64) :: byte) = c"
    by (simp only: regroup_third [OF lc] byte_of_unat)
  show ?thesis
    unfolding decode_group_def
    by (simp only: b64_index_char [OF s0] b64_index_char [OF s1] b64_index_char [OF s2]
        b64_index_char [OF s3] b64_char_not_pad [OF s2] b64_char_not_pad [OF s3]
        w0 w1 w2 prod.case option.case if_False)
qed

lemma decode_group2:
  "decode_group (b64_char (unat a div 4))
     (b64_char (unat a mod 4 * 16 + unat b div 16))
     (b64_char (unat b mod 16 * 4)) (CHR ''='') = Some [a, b]"
proof -
  have la: "unat a < 256" and lb: "unat b < 256"
    by (rule unat_byte_less)+
  have s2: "unat b mod 16 * 4 < 64"
    using sextet2_less [of 0 "unat b"] by simp
  note s0 = byte_div4 [OF la] and s1 = sextet1_less [OF lb, of "unat a"]
  have w0: "(of_nat (unat a div 4 * 4 + (unat a mod 4 * 16 + unat b div 16) div 16) :: byte) = a"
    by (simp only: regroup_first [OF lb] byte_of_unat)
  have w1: "(of_nat ((unat a mod 4 * 16 + unat b div 16) mod 16 * 16
      + (unat b mod 16 * 4) div 4) :: byte) = b"
    by (simp only: regroup_second_padded [OF lb] byte_of_unat)
  show ?thesis
    unfolding decode_group_def
    by (simp only: b64_index_char [OF s0] b64_index_char [OF s1] b64_index_char [OF s2]
        b64_char_not_pad [OF s2] w0 w1 prod.case option.case if_False if_True simp_thms)
qed

lemma decode_group1:
  "decode_group (b64_char (unat a div 4)) (b64_char (unat a mod 4 * 16))
     (CHR ''='') (CHR ''='') = Some [a]"
proof -
  have la: "unat a < 256" by (rule unat_byte_less)
  have s1: "unat a mod 4 * 16 < 64"
    using sextet1_less [of 0 "unat a"] by simp
  note s0 = byte_div4 [OF la]
  have w0: "(of_nat (unat a div 4 * 4 + (unat a mod 4 * 16) div 16) :: byte) = a"
    by (simp only: regroup_first_padded byte_of_unat)
  show ?thesis
    unfolding decode_group_def
    by (simp only: b64_index_char [OF s0] b64_index_char [OF s1]
        w0 prod.case option.case if_True simp_thms)
qed

lemma base64_roundtrip: "base64_decode (base64_encode bs) = Some bs"
proof (induction bs rule: base64_encode.induct)
  case 1
  show ?case by simp
next
  case (2 a)
  show ?case by (simp add: decode_group1)
next
  case (3 a b)
  show ?case by (simp add: decode_group2)
next
  case (4 a b c rest)
  have "b64_char (unat c mod 64) \<noteq> CHR ''=''"
    by (rule b64_char_not_pad) simp
  with 4 show ?case by (simp add: decode_group3)
qed

lemma base64_no_comma: "CHR '','' \<notin> set (base64_encode bs)"
proof (induction bs rule: base64_encode.induct)
  case 1
  show ?case by simp
next
  case (2 a)
  have la: "unat a < 256" by (rule unat_byte_less)
  have s1: "unat a mod 4 * 16 < 64"
    using sextet1_less [of 0 "unat a"] by simp
  show ?case
    using b64_char_not_comma [OF byte_div4 [OF la]] b64_char_not_comma [OF s1] by simp
next
  case (3 a b)
  have la: "unat a < 256" and lb: "unat b < 256"
    by (rule unat_byte_less)+
  have s2: "unat b mod 16 * 4 < 64"
    using sextet2_less [of 0 "unat b"] by simp
  show ?case
    using b64_char_not_comma [OF byte_div4 [OF la]]
      b64_char_not_comma [OF sextet1_less [OF lb, of "unat a"]]
      b64_char_not_comma [OF s2] by simp
next
  case (4 a b c rest)
  have la: "unat a < 256" and lb: "unat b < 256" and lc: "unat c < 256"
    by (rule unat_byte_less)+
  have s3: "unat c mod 64 < 64" by simp
  show ?case
    using 4 b64_char_not_comma [OF byte_div4 [OF la]]
      b64_char_not_comma [OF sextet1_less [OF lb, of "unat a"]]
      b64_char_not_comma [OF sextet2_less [OF lc, of "unat b"]]
      b64_char_not_comma [OF s3] by simp
qed

lemma js_split_no_sep: "sep \<notin> set s \<Longrightarrow> js_split sep s = [s]"
  by (induction s) auto

lemma js_split_one_sep:
  "sep \<notin> set a \<Longrightarrow> sep \<notin> set b \<Longrightarrow> js_split sep (a @ sep # b) = [a, b]"
  by (induction a) (auto simp: js_split_no_sep)

lemma js_split_second:
  "sep \<notin> set a \<Longrightarrow> sep \<notin> set b \<Longrightarrow> nth_opt (js_split sep (a @ sep # b)) 1 = Some b"
  by (simp add: js_split_one_sep)

lemma js_split_nonempty: "js_split sep s \<noteq> []"
  by (induction s) (auto split: list.splits)

lemma data_url_webm:
  "blob_type b = ''audio/webm'' \<Longrightarrow>
   nth_opt (js_split CHR '','' (data_url b)) 1 = Some (base64_encode (blob_bytes b))"
proof -
  assume t: "blob_type b = ''audio/webm''"
  have "nth_opt (js_split CHR '','' (''data:audio/webm;base64'' @ CHR '','' #
          base64_encode (blob_bytes b))) 1 = Some (base64_encode (blob_bytes b))"
    by (rule js_split_second) (simp, rule base64_no_comma)
  then show ?thesis
    by (simp add: data_url_def t)
qed

section \<open>The segments of \<open>translateAudio\<close> composed\<close>

lemma nth_opt_append_length: "nth_opt (xs @ y # ys) (length xs) = Some y"
  by (induction xs) simp_all

lemma nth_opt_length: "nth_opt xs (length xs) = None"
  by (induction xs) simp_all

lemma drop_task_suspend: "length (pending d) = n \<Longrightarrow> drop_task n (suspend t d) = d"
  by (simp add: drop_task_def suspend_def)

lemma pending_emit: "pending (emit es c) = pending c"
  by (simp add: emit_def)

lemma pending_suspend: "pending (suspend t c) = pending c @ [t]"
  by (simp add: suspend_def)

lemma pending_catch: "pending (translateAudio_catch c) = pending c"
  by (simp add: translateAudio_catch_def translateAudio_finally_def emit_def)

lemma blobToBase64_readable:
  "blobToBase64 True b = Resolved (nth_opt (js_split CHR '','' (data_url b)) 1)"
  by (simp add: blobToBase64_def readAsDataURL_def resolve_def)

lemma blobToBase64_unreadable: "blobToBase64 False b = Rejected"
  by (simp add: blobToBase64_def readAsDataURL_def reject_def)

text \<open>
  Whatever text a successful read leaves in \<open>reader.result\<close>, the handlers resolve
  the promise, with \<open>undefined\<close> when the text has no comma.
\<close>

lemma loaded_reader_resolves:
  "fold (reader_handler (Some url)) [LoadEvent, LoadEndEvent] Pending
     = Resolved (nth_opt (js_split CHR '','' url) 1)"
  by (simp add: resolve_def)

lemma blobToBase64_settles: "blobToBase64 readable b \<noteq> Pending"
  by (cases readable) (simp_all add: blobToBase64_readable blobToBase64_unreadable)

lemma translateAudio_unfold:
  assumes "audioBlob c = Some b"
  shows "translateAudio P c =
     (let c1 = emit [ReadAsDataURL b] (c\<lparr>isProcessing := True, error := None\<rparr>) in
      case blobToBase64 (blob_readable P b) b of
        Pending \<Rightarrow> c1
      | Rejected \<Rightarrow> translateAudio_catch c1
      | Resolved d \<Rightarrow>
          (if sdk_constructs P then
             translateAudio_responded (JSON_parse P) (generateContent P (make_request d))
               (emit [NewGoogleGenAI, GenerateContent (make_request d)] c1)
           else translateAudio_catch (emit [NewGoogleGenAI] c1)))"
proof -
  let ?n = "length (pending c)"
  let ?c1 = "emit [ReadAsDataURL b] (c\<lparr>isProcessing := True, error := None\<rparr>)"
  have len: "length (pending ?c1) = ?n" by (simp add: pending_emit)
  have c1: "drop_task ?n (translateAudio_begin b c) = ?c1"
    unfolding translateAudio_begin_def by (rule drop_task_suspend) (rule len)
  have at_end: "nth_opt (pending d) ?n = None" if "pending d = pending c" for d
    using that nth_opt_length [of "pending c"] by simp
  have at_task: "nth_opt (pending (suspend t d)) ?n = Some t" if "pending d = pending c" for d t
    using that nth_opt_append_length [of "pending c" t "[]"] by (simp add: pending_suspend)
  have undo: "drop_task ?n (suspend t d) = d" if "pending d = pending c" for d t
    by (rule drop_task_suspend) (simp add: that)
  have p1: "pending ?c1 = pending c" by (simp add: pending_emit)
  show ?thesis
  proof (cases "blobToBase64 (blob_readable P b) b")
    case Pending
    then show ?thesis
      by (simp add: translateAudio_def assms c1 translateAudio_encoded_def at_end p1)
  next
    case Rejected
    then show ?thesis
      by (simp add: translateAudio_def assms c1 translateAudio_encoded_def at_end p1 pending_catch)
  next
    case (Resolved d)
    show ?thesis
    proof (cases "sdk_constructs P")
      case True
      have p2: "pending (emit [NewGoogleGenAI, GenerateContent (make_request d)] ?c1) = pending c"
        by (simp add: pending_emit)
      show ?thesis
        by (simp add: translateAudio_def assms c1 translateAudio_encoded_def Resolved True
            at_task [OF p2] undo [OF p2] Let_def)
    next
      case False
      have p2: "pending (translateAudio_catch (emit [NewGoogleGenAI] ?c1)) = pending c"
        by (simp add: pending_emit pending_catch)
      show ?thesis
        by (simp add: translateAudio_def assms c1 translateAudio_encoded_def Resolved False
            at_end [OF p2] Let_def)
    qed
  qed
qed

lemma captured_reachable: "run parse initial capture_events = Some captured"
  by (simp add: capture_events_def captured_def initial_def startRecording_begin_def
      startRecording_resume_def stopRecording_def recorder_stop_def ondataavailable_def
      onstop_def set_recorder_def drop_task_def suspend_def emit_def sample_chunk_def
      sample_blob_def Let_def)

section \<open>Sample inputs evaluated\<close>

lemmas handler_defs =
  translateAudio_responded_def translateAudio_catch_def translateAudio_finally_def emit_def

lemma sample_blob_simps:
  "blob_bytes sample_blob = [0x1A, 0x45, 0xDF]" "blob_type sample_blob = ''audio/webm''"
  by (simp_all add: sample_blob_def sample_chunk_def new_Blob_def)

lemma empty_blob_simps:
  "blob_bytes empty_blob = []" "blob_type empty_blob = ''audio/webm''"
  by (simp_all add: empty_blob_def new_Blob_def)

lemma blobToBase64_webm:
  "blob_type b = ''audio/webm'' \<Longrightarrow>
   blobToBase64 True b = Resolved (Some (base64_encode (blob_bytes b)))"
  using data_url_webm [of b] by (simp add: blobToBase64_readable)

lemma captured_simps:
  "audioBlob captured = Some sample_blob" "audioUrl captured = Some ''blob:sample''"
  "result captured = JNull" "error captured = None" "\<not> isProcessing captured"
  "\<not> isRecording captured"
  by (simp_all add: captured_def)

lemma answering_simps:
  "blob_readable (answering t) b" "sdk_constructs (answering t)"
  "generateContent (answering t) req = RemoteResponds t"
  "JSON_parse (answering t) = sample_parse" "microphone (answering t) = RecorderStarted"
  by (simp_all add: answering_def)

lemma failing_simps:
  "blob_readable failing b" "sdk_constructs failing"
  "generateContent failing req = RemoteThrows"
  by (simp_all add: failing_def answering_def)

lemma sample_parse_simps:
  "sample_parse partial_text = Some partial_value"
  "sample_parse complete_text = Some complete_value"
  "partial_text \<noteq> []" "complete_text \<noteq> []"
  by (simp_all add: sample_parse_def partial_text_def complete_text_def)

lemma sample_encodes:
  "blobToBase64 True sample_blob = Resolved (Some ''GkXf'')"
  using blobToBase64_webm [of sample_blob]
  by (simp add: sample_blob_simps b64_char_def base64_alphabet_def)

section \<open>The encoder\<close>

text \<open>
  Claim C2 says that \<open>blobToBase64\<close> is deterministic and fails exactly when its
  input is empty or unreadable. The source has no test for emptiness: the promise is
  rejected only through \<open>reader.onerror\<close>. As amended: \<open>blobToBase64\<close> is a function
  of the blob and of whether the platform can read it; it is rejected exactly when the
  read fails, and a readable \<open>audio/webm\<close> blob, empty or not, resolves with the base64
  text of its bytes.
\<close>

theorem blobToBase64_rejects_iff_unreadable:
  "(blobToBase64 readable b = Rejected \<longleftrightarrow> \<not> readable) \<and>
   blobToBase64 readable b \<noteq> Pending \<and>
   (readable \<and> blob_type b = ''audio/webm'' \<longrightarrow>
      blobToBase64 readable b = Resolved (Some (base64_encode (blob_bytes b))))"
proof (cases readable)
  case True
  then show ?thesis
    using blobToBase64_webm [of b] by (auto simp: blobToBase64_readable)
next
  case False
  then show ?thesis
    by (simp add: blobToBase64_unreadable)
qed

theorem blobToBase64_rejects_iff_unreadable_witness:
  "blobToBase64 False sample_blob = Rejected \<and>
   blobToBase64 True sample_blob = Resolved (Some ''GkXf'')"
  using blobToBase64_rejects_iff_unreadable [of False sample_blob]
    blobToBase64_rejects_iff_unreadable [of True sample_blob]
  by (simp add: sample_blob_simps b64_char_def base64_alphabet_def)

text \<open>
  Against claim C2 as stated: the empty recording is readable and is encoded, to the
  empty text, not refused. (By \<open>loaded_reader_resolves\<close> the promise resolves
  whatever data URL the platform produces for an empty blob.)
\<close>

theorem empty_blob_is_encoded:
  "blob_bytes empty_blob = [] \<and> blobToBase64 True empty_blob = Resolved (Some [])"
  by (simp add: empty_blob_simps blobToBase64_webm)

text \<open>
  Claim C4, the round trip: for every audio blob (type \<open>audio/webm\<close>, as \<open>onstop\<close>
  builds them) that the platform can read, \<open>blobToBase64\<close> resolves with a text that
  the base64 decoder maps back to exactly the bytes of the blob.
\<close>

theorem encode_decode_roundtrip:
  "blob_type b = ''audio/webm'' \<Longrightarrow>
   blobToBase64 True b = Resolved (Some (base64_encode (blob_bytes b))) \<and>
   base64_decode (base64_encode (blob_bytes b)) = Some (blob_bytes b)"
  by (simp add: blobToBase64_webm base64_roundtrip)

theorem encode_decode_roundtrip_witness:
  "blob_type sample_blob = ''audio/webm'' \<and>
   blobToBase64 True sample_blob = Resolved (Some ''GkXf'') \<and>
   base64_decode ''GkXf'' = Some [0x1A, 0x45, 0xDF]"
  using encode_decode_roundtrip [of sample_blob]
  by (simp add: sample_blob_simps b64_char_def base64_alphabet_def)

section \<open>Submission\<close>

text \<open>
  Claim C8: when \<open>translateAudio\<close> is invoked with no audio held (\<open>audioBlob\<close> is
  null) it returns at once: the whole configuration, with the calls made and the
  pending continuations, is unchanged, so nothing is encoded and no request is sent.
  In the view the translate button cannot be clicked in such a state.
\<close>

theorem translateAudio_without_capture:
  "audioBlob c = None \<Longrightarrow>
   translateAudio P c = c \<and> step parse c (Click TranslateButton) = None"
  by (simp add: translateAudio_def)

theorem translateAudio_without_capture_witness:
  "audioBlob initial = None \<and> translateAudio failing initial = initial \<and>
   step sample_parse initial (Click TranslateButton) = None"
  using translateAudio_without_capture [of initial failing sample_parse]
  by (simp add: initial_def)

text \<open>
  Claim C1 says that a response lacking \<open>transcription\<close> or \<open>translation\<close> leads to
  the failed state and is never stored. The source stores whatever \<open>JSON.parse\<close>
  returns (line 104) and inspects no field. As amended: whenever the encoding
  resolves, the client is constructed and the response text is non-empty and parses,
  the parsed value becomes \<open>result\<close>, no error message is set and processing ends,
  whether or not the value has the two fields.
\<close>

theorem parsed_response_is_stored:
  assumes "audioBlob c = Some b"
    and "blobToBase64 (blob_readable P b) b = Resolved d"
    and "sdk_constructs P"
    and "generateContent P (make_request d) = RemoteResponds (Some t)"
    and "t \<noteq> []"
    and "JSON_parse P t = Some v"
  shows "result (translateAudio P c) = v \<and> error (translateAudio P c) = None \<and>
         \<not> isProcessing (translateAudio P c)"
  using assms by (simp add: translateAudio_unfold handler_defs Let_def)

theorem parsed_response_is_stored_witness:
  "result (translateAudio (answering (Some complete_text)) captured) = complete_value \<and>
   error (translateAudio (answering (Some complete_text)) captured) = None \<and>
   \<not> isProcessing (translateAudio (answering (Some complete_text)) captured)"
  using parsed_response_is_stored [of captured sample_blob "answering (Some complete_text)"
      "Some ''GkXf''" complete_text complete_value]
  by (simp add: captured_simps answering_simps sample_encodes sample_parse_simps)

text \<open>
  Against claim C1 as stated: a response with \<open>transcription\<close> only is stored as the
  displayed result, and no error message is set.
\<close>

theorem partial_response_is_stored:
  "\<not> has_required_fields partial_value \<and>
   JSON_parse (answering (Some partial_text)) partial_text = Some partial_value \<and>
   error (translateAudio (answering (Some partial_text)) captured) = None \<and>
   result (translateAudio (answering (Some partial_text)) captured) = partial_value"
  by (simp add: translateAudio_unfold [OF captured_simps(1)] answering_simps sample_encodes
      sample_parse_simps handler_defs Let_def has_required_fields_def make_request_def
      partial_value_def)

text \<open>
  The \<open>catch\<close> block runs (it is the only caller of \<open>console.error\<close> in
  \<open>translateAudio\<close>) exactly when \<open>submission_throws\<close> holds.
\<close>

lemma catch_runs_iff_throws:
  assumes "audioBlob c = Some b"
  shows "ConsoleError \<in> set (drop (length (effects c)) (effects (translateAudio P c)))
         \<longleftrightarrow> submission_throws P b"
  using assms blobToBase64_settles [of "blob_readable P b" b]
  by (auto simp: translateAudio_unfold submission_throws_def handler_defs Let_def
      split: promise.splits remote_outcome.splits option.splits if_splits)

text \<open>
  Claim C6: whenever a submission fails (something in the \<open>try\<close> block throws), the
  run ends with the error message set and processing over, and the audio held before
  the submission (\<open>audioBlob\<close>, with its \<open>audioUrl\<close>) is still held, so it can be
  submitted again; \<open>result\<close> is untouched as well.
\<close>

theorem failed_submission_keeps_capture:
  assumes "audioBlob c = Some b" and "submission_throws P b"
  shows "error (translateAudio P c) = Some ProcessingMessage \<and>
         \<not> isProcessing (translateAudio P c) \<and>
         audioBlob (translateAudio P c) = Some b \<and>
         audioUrl (translateAudio P c) = audioUrl c \<and>
         result (translateAudio P c) = result c"
  using assms blobToBase64_settles [of "blob_readable P b" b]
  by (auto simp: translateAudio_unfold submission_throws_def handler_defs Let_def
      split: promise.splits remote_outcome.splits option.splits if_splits)

theorem failed_submission_keeps_capture_witness:
  "submission_throws failing sample_blob \<and>
   error (translateAudio failing captured) = Some ProcessingMessage \<and>
   \<not> isProcessing (translateAudio failing captured) \<and>
   audioBlob (translateAudio failing captured) = Some sample_blob \<and>
   audioUrl (translateAudio failing captured) = Some ''blob:sample'' \<and>
   result (translateAudio failing captured) = JNull"
proof -
  have t: "submission_throws failing sample_blob"
    by (simp add: submission_throws_def failing_simps sample_encodes)
  from failed_submission_keeps_capture [OF captured_simps(1) t] t
  show ?thesis by (simp add: captured_simps)
qed

text \<open>
  Claim C10: if nothing throws but the response text is absent or empty, the run of
  \<open>translateAudio\<close> leaves \<open>result\<close> as it was (null when it was null), leaves
  \<open>error\<close> null as cleared at the start, ends processing and keeps the audio: neither
  a result nor a message appears.
\<close>

theorem empty_response_is_silent:
  assumes "audioBlob c = Some b"
    and "blobToBase64 (blob_readable P b) b = Resolved d"
    and "sdk_constructs P"
    and "generateContent P (make_request d) = RemoteResponds t"
    and "t = None \<or> t = Some []"
  shows "result (translateAudio P c) = result c \<and> error (translateAudio P c) = None \<and>
         \<not> isProcessing (translateAudio P c) \<and> audioBlob (translateAudio P c) = Some b"
  using assms by (auto simp: translateAudio_unfold handler_defs Let_def)

theorem empty_response_is_silent_witness:
  "result (translateAudio (answering (Some [])) captured) = JNull \<and>
   error (translateAudio (answering (Some [])) captured) = None \<and>
   \<not> isProcessing (translateAudio (answering (Some [])) captured) \<and>
   audioBlob (translateAudio (answering (Some [])) captured) = Some sample_blob \<and>
   result (translateAudio (answering None) captured) = JNull \<and>
   error (translateAudio (answering None) captured) = None"
  using empty_response_is_silent [of captured sample_blob "answering (Some [])" "Some ''GkXf''" "Some []"]
    empty_response_is_silent [of captured sample_blob "answering None" "Some ''GkXf''" None]
  by (simp add: captured_simps answering_simps sample_encodes)

section \<open>Recording and reset\<close>

text \<open>
  Claim C7: starting a recording discards what was held. Already when the first
  segment of \<open>startRecording\<close> has run, and again when the whole handler has run
  (whatever the microphone and the recorder did), \<open>audioBlob\<close>, \<open>audioUrl\<close> and
  \<open>result\<close> are null, whatever they were before.
\<close>

theorem startRecording_discards:
  "audioBlob (startRecording_begin c) = None \<and> audioUrl (startRecording_begin c) = None \<and>
   result (startRecording_begin c) = JNull \<and>
   audioBlob (startRecording P c) = None \<and> audioUrl (startRecording P c) = None \<and>
   result (startRecording P c) = JNull"
  by (cases "microphone P")
    (simp_all add: startRecording_def startRecording_begin_def startRecording_resume_def
      startRecording_catch_def drop_task_def suspend_def emit_def Let_def)

theorem startRecording_discards_witness:
  "audioBlob captured = Some sample_blob \<and>
   audioBlob (startRecording_begin captured) = None \<and>
   audioUrl (startRecording_begin captured) = None \<and>
   result (startRecording_begin captured) = JNull \<and>
   audioBlob (startRecording failing captured) = None \<and>
   audioUrl (startRecording failing captured) = None \<and>
   result (startRecording failing captured) = JNull"
  using startRecording_discards [of captured failing]
  by (simp add: captured_simps)

text \<open>
  Claim C9: \<open>stopRecording\<close> called while \<open>isRecording\<close> is false changes nothing:
  every state cell and ref is as before, and the list of calls made is as before, so
  no operation of the recorder is invoked.
\<close>

theorem stopRecording_when_not_recording:
  "\<not> isRecording c \<Longrightarrow> stopRecording c = c"
  by (simp add: stopRecording_def split: option.splits)

theorem stopRecording_when_not_recording_witness:
  "\<not> isRecording captured \<and> mediaRecorderRef captured = Some 0 \<and>
   stopRecording captured = captured"
  using stopRecording_when_not_recording [of captured]
  by (simp add: captured_def)

text \<open>
  Claim C5: \<open>reset\<close> yields a state that holds no audio (\<open>audioBlob\<close> and
  \<open>audioUrl\<close> are null) and no result (\<open>result\<close> is null), from every state; and
  a click on the reset button, where the view offers it, does exactly \<open>reset\<close>.
\<close>

theorem reset_discards:
  "audioBlob (reset c) = None \<and> audioUrl (reset c) = None \<and> result (reset c) = JNull \<and>
   (step parse c (Click ResetButton) = Some c' \<longrightarrow> c' = reset c)"
  by (auto simp: reset_def split: if_splits)

theorem reset_discards_witness:
  "step sample_parse (translateAudio (answering (Some complete_text)) captured) (Click ResetButton)
     = Some (reset (translateAudio (answering (Some complete_text)) captured)) \<and>
   audioBlob (translateAudio (answering (Some complete_text)) captured) = Some sample_blob \<and>
   audioBlob (reset (translateAudio (answering (Some complete_text)) captured)) = None \<and>
   audioUrl (reset (translateAudio (answering (Some complete_text)) captured)) = None \<and>
   result (reset (translateAudio (answering (Some complete_text)) captured)) = JNull"
  using reset_discards [of "translateAudio (answering (Some complete_text)) captured"]
  by (simp add: translateAudio_unfold [OF captured_simps(1)] answering_simps sample_encodes
      sample_parse_simps handler_defs Let_def complete_value_def captured_simps)

section \<open>The event loop: one submission at a time\<close>

lemma filter_without_task:
  "nth_opt xs i = Some t \<Longrightarrow>
   length (filter Q (take i xs @ drop (Suc i) xs)) + (if Q t then 1 else 0) = length (filter Q xs)"
proof (induction xs arbitrary: i)
  case Nil
  then show ?case by simp
next
  case (Cons x xs)
  show ?case
  proof (cases i)
    case 0
    with Cons.prems show ?thesis by simp
  next
    case (Suc j)
    with Cons.prems have "nth_opt xs j = Some t" by simp
    from Cons.IH [OF this] Suc show ?thesis by simp
  qed
qed

lemma submissions_drop_task:
  "nth_opt (pending c) i = Some t \<Longrightarrow>
   length (submissions (drop_task i c)) + (if is_submission t then 1 else 0)
     = length (submissions c)"
  using filter_without_task [of "pending c" i t is_submission]
  by (simp add: submissions_def drop_task_def)

lemma isProcessing_drop_task: "isProcessing (drop_task i c) = isProcessing c"
  by (simp add: drop_task_def)

lemma click_preserves:
  assumes "processing_matches c" and "clickable c b"
  shows "processing_matches (onClick c b)"
proof (cases b)
  case MainButton
  with assms show ?thesis
    by (auto simp: processing_matches_def submissions_def stopRecording_def
        startRecording_begin_def suspend_def emit_def split: option.splits)
next
  case RefreshButton
  with assms show ?thesis
    by (auto simp: processing_matches_def submissions_def
        startRecording_begin_def suspend_def emit_def)
next
  case TranslateButton
  with assms show ?thesis
    by (auto simp: processing_matches_def submissions_def
        translateAudio_begin_def suspend_def emit_def)
next
  case ResetButton
  with assms show ?thesis
    by (auto simp: processing_matches_def submissions_def reset_def)
qed

lemma resume_preserves:
  "processing_matches c \<Longrightarrow> processing_matches (startRecording_resume out c)"
  by (cases out)
    (auto simp: processing_matches_def submissions_def startRecording_resume_def
      startRecording_catch_def emit_def Let_def)

lemma encoded_preserves:
  assumes "submissions c = []" and "isProcessing c" and "p \<noteq> Pending"
  shows "processing_matches (translateAudio_encoded p sdk c)"
  using assms
  by (cases p)
    (auto simp: processing_matches_def submissions_def translateAudio_encoded_def
      translateAudio_catch_def translateAudio_finally_def suspend_def emit_def)

lemma responded_preserves:
  assumes "submissions c = []"
  shows "processing_matches (translateAudio_responded parse out c)"
  using assms
  by (auto simp: processing_matches_def submissions_def translateAudio_responded_def
      translateAudio_catch_def translateAudio_finally_def emit_def
      split: remote_outcome.splits option.splits)

lemma submission_settles:
  assumes "processing_matches c" and "nth_opt (pending c) i = Some t" and "is_submission t"
  shows "submissions (drop_task i c) = []" and "isProcessing (drop_task i c)"
proof -
  from submissions_drop_task [OF assms(2)] assms(3)
  have less: "length (submissions (drop_task i c)) + 1 = length (submissions c)" by simp
  moreover from assms(1) have le: "length (submissions c) \<le> 1"
    by (simp add: processing_matches_def split: if_splits)
  ultimately have "length (submissions (drop_task i c)) = 0" by linarith
  then show "submissions (drop_task i c) = []" by simp
  from less have "length (submissions c) \<noteq> 0" by linarith
  with assms(1) show "isProcessing (drop_task i c)"
    by (simp add: processing_matches_def isProcessing_drop_task split: if_splits)
qed

lemma step_preserves:
  assumes "processing_matches c" and "step parse c e = Some c'"
  shows "processing_matches c'"
proof (cases e)
  case (Click b)
  with assms show ?thesis by (auto simp: click_preserves split: if_splits)
next
  case (MicSettles i out)
  with assms(2) have t: "nth_opt (pending c) i = Some AwaitMicrophone"
    and c': "c' = startRecording_resume out (drop_task i c)"
    by (auto split: option.splits task.splits)
  from submissions_drop_task [OF t] assms(1)
  have "processing_matches (drop_task i c)"
    by (simp add: processing_matches_def isProcessing_drop_task)
  then show ?thesis unfolding c' by (rule resume_preserves)
next
  case (EncodeSettles i readable sdk)
  with assms(2) obtain b where t: "nth_opt (pending c) i = Some (AwaitEncode b)"
    and c': "c' = translateAudio_encoded (blobToBase64 readable b) sdk (drop_task i c)"
    by (auto split: option.splits task.splits promise.splits)
  have "is_submission (AwaitEncode b)" by simp
  note s = submission_settles [OF assms(1) t this]
  show ?thesis unfolding c'
    by (rule encoded_preserves [OF s blobToBase64_settles])
next
  case (RemoteSettles i out)
  with assms(2) obtain req where t: "nth_opt (pending c) i = Some (AwaitRemote req)"
    and c': "c' = translateAudio_responded parse out (drop_task i c)"
    by (auto split: option.splits task.splits)
  have "is_submission (AwaitRemote req)" by simp
  from submission_settles(1) [OF assms(1) t this]
  show ?thesis unfolding c' by (rule responded_preserves)
next
  case (TrackEnded r)
  with assms show ?thesis
    by (auto simp: processing_matches_def submissions_def set_recorder_def split: if_splits)
next
  case (DataAvailable r chunk)
  with assms show ?thesis
    by (auto simp: processing_matches_def submissions_def set_recorder_def
        ondataavailable_def split: if_splits)
next
  case (StopEvent r url)
  with assms show ?thesis
    by (auto simp: processing_matches_def submissions_def set_recorder_def
        onstop_def emit_def Let_def split: if_splits)
qed

lemma run_preserves:
  "run parse c es = Some c' \<Longrightarrow> processing_matches c \<Longrightarrow> processing_matches c'"
proof (induction es arbitrary: c)
  case Nil
  then show ?case by simp
next
  case (Cons e es)
  from Cons.prems(1) obtain d where d: "step parse c e = Some d" and r: "run parse d es = Some c'"
    by (auto split: option.splits)
  from step_preserves [OF Cons.prems(2) d] have "processing_matches d" .
  from Cons.IH [OF r this] show ?case .
qed

lemma initial_matches: "processing_matches initial"
  by (simp add: processing_matches_def submissions_def initial_def)

text \<open>
  Claim C3: in every configuration the page can reach from its initial one, by any
  sequence of clicks, settled awaits and recorder events, at most one submission is
  in flight; \<open>isProcessing\<close> is true exactly while one is; and while it is true a
  click on the translate button is impossible, so no second remote call can be
  started.
\<close>

theorem no_double_submission:
  assumes "run parse initial es = Some c"
  shows "length (submissions c) \<le> 1 \<and> (isProcessing c \<longleftrightarrow> submissions c \<noteq> []) \<and>
         (isProcessing c \<longrightarrow> step parse c (Click TranslateButton) = None)"
proof -
  from run_preserves [OF assms initial_matches] have "processing_matches c" .
  then show ?thesis
    by (auto simp: processing_matches_def split: if_splits)
qed

lemma run_append:
  "run parse c (es @ fs) = (case run parse c es of None \<Rightarrow> None | Some d \<Rightarrow> run parse d fs)"
  by (induction es arbitrary: c) (auto split: option.splits)

lemma submitted_reachable:
  "run parse initial (capture_events @ [Click TranslateButton]) = Some submitted"
  by (simp add: run_append captured_reachable submitted_def) (simp add: captured_def)

theorem no_double_submission_witness:
  "run sample_parse initial (capture_events @ [Click TranslateButton]) = Some submitted \<and>
   isProcessing submitted \<and> submissions submitted = [AwaitEncode sample_blob] \<and>
   step sample_parse submitted (Click TranslateButton) = None"
  using no_double_submission [OF submitted_reachable [of sample_parse]]
  by (simp add: submitted_reachable) (simp add: submitted_def translateAudio_begin_def suspend_def emit_def submissions_def captured_def)

section \<open>The handlers as runs of the event loop\<close>

text \<open>
  A run of \<open>translateAudio\<close> or \<open>startRecording\<close> without interleaving is one of
  the runs of the event loop: the click, then the awaits settling in order.
\<close>

lemma nth_opt_pending_suspend:
  "nth_opt (pending (suspend t d)) (length (pending d)) = Some t"
  using nth_opt_append_length [of "pending d" t "[]"] by (simp add: pending_suspend)

lemma translateAudio_is_a_run:
  assumes "clickable c TranslateButton" and "audioBlob c = Some b"
  shows "\<exists>es. run (JSON_parse P) c (Click TranslateButton # es) = Some (translateAudio P c)"
proof -
  let ?n = "length (pending c)"
  let ?p = "blobToBase64 (blob_readable P b) b"
  let ?c1 = "drop_task ?n (translateAudio_begin b c)"
  let ?c2 = "translateAudio_encoded ?p (sdk_constructs P) ?c1"
  let ?e = "EncodeSettles ?n (blob_readable P b) (sdk_constructs P)"
  have at_n: "nth_opt (pending (translateAudio_begin b c)) ?n = Some (AwaitEncode b)"
    unfolding translateAudio_begin_def
    using nth_opt_pending_suspend [of "AwaitEncode b" "emit [ReadAsDataURL b] (c\<lparr>isProcessing := True, error := None\<rparr>)"]
    by (simp add: pending_emit)
  have s1: "step (JSON_parse P) c (Click TranslateButton) = Some (translateAudio_begin b c)"
    using assms by simp
  have s2: "step (JSON_parse P) (translateAudio_begin b c) ?e = Some ?c2"
    using at_n blobToBase64_settles [of "blob_readable P b" b]
    by (cases ?p) simp_all
  show ?thesis
  proof (cases "\<exists>req. nth_opt (pending ?c2) ?n = Some (AwaitRemote req)")
    case True
    then obtain req where req: "nth_opt (pending ?c2) ?n = Some (AwaitRemote req)" ..
    let ?r = "RemoteSettles ?n (generateContent P req)"
    have "translateAudio P c =
        translateAudio_responded (JSON_parse P) (generateContent P req) (drop_task ?n ?c2)"
      using req by (simp add: translateAudio_def assms(2) Let_def)
    moreover have "run (JSON_parse P) c [Click TranslateButton, ?e, ?r] =
        Some (translateAudio_responded (JSON_parse P) (generateContent P req) (drop_task ?n ?c2))"
      using s1 s2 req by simp
    ultimately show ?thesis by metis
  next
    case False
    then have "translateAudio P c = ?c2"
      by (auto simp: translateAudio_def assms(2) Let_def split: option.splits task.splits)
    moreover have "run (JSON_parse P) c [Click TranslateButton, ?e] = Some ?c2"
      using s1 s2 by simp
    ultimately show ?thesis by metis
  qed
qed

lemma startRecording_is_a_run:
  assumes "clickable c RefreshButton"
  shows "run parse c [Click RefreshButton, MicSettles (length (pending c)) (microphone P)]
           = Some (startRecording P c)"
proof -
  have "nth_opt (pending (startRecording_begin c)) (length (pending c)) = Some AwaitMicrophone"
    unfolding startRecording_begin_def
    using nth_opt_pending_suspend [of AwaitMicrophone "emit [CallGetUserMedia]
      (c\<lparr>error := None, result := JNull, audioUrl := None, audioBlob := None, chunksRef := []\<rparr>)"]
    by (simp add: pending_emit)
  with assms show ?thesis
    by (simp add: startRecording_def Let_def)
qed

text \<open>
  Every blob the page holds was built by \<open>onstop\<close>, so it has type \<open>audio/webm\<close>:
  the blobs of the round trip above are all the blobs \<open>translateAudio\<close> ever encodes.
\<close>

lemma webm_drop_task: "webm_only c \<Longrightarrow> webm_only (drop_task i c)"
proof -
  assume w: "webm_only c"
  have "set (take i (pending c) @ drop (Suc i) (pending c)) \<subseteq> set (pending c)"
    using set_take_subset [of i "pending c"] set_drop_subset [of "Suc i" "pending c"] by auto
  with w show ?thesis
    by (auto simp: webm_only_def drop_task_def list_all_iff)
qed

lemma webm_step:
  assumes "webm_only c" and "step parse c e = Some c'"
  shows "webm_only c'"
proof (cases e)
  case (Click b)
  with assms show ?thesis
    by (cases b)
      (auto simp: webm_only_def stopRecording_def startRecording_begin_def
        translateAudio_begin_def reset_def suspend_def emit_def
        split: if_splits option.splits)
next
  case (MicSettles i out)
  with assms(2) have c': "c' = startRecording_resume out (drop_task i c)"
    by (auto split: option.splits task.splits)
  from webm_drop_task [OF assms(1), of i] show ?thesis
    unfolding c'
    by (cases out)
      (auto simp: webm_only_def startRecording_resume_def startRecording_catch_def
        emit_def Let_def)
next
  case (EncodeSettles i readable sdk)
  with assms(2) obtain p where
    c': "c' = translateAudio_encoded p sdk (drop_task i c)"
    by (auto split: option.splits task.splits promise.splits)
  from webm_drop_task [OF assms(1), of i] show ?thesis
    unfolding c'
    by (cases p)
      (auto simp: webm_only_def translateAudio_encoded_def translateAudio_catch_def
        translateAudio_finally_def suspend_def emit_def)
next
  case (RemoteSettles i out)
  with assms(2) have c': "c' = translateAudio_responded parse out (drop_task i c)"
    by (auto split: option.splits task.splits)
  from webm_drop_task [OF assms(1), of i] show ?thesis
    unfolding c'
    by (auto simp: webm_only_def handler_defs split: remote_outcome.splits option.splits)
next
  case (TrackEnded r)
  with assms show ?thesis
    by (auto simp: webm_only_def set_recorder_def split: if_splits)
next
  case (DataAvailable r chunk)
  with assms show ?thesis
    by (auto simp: webm_only_def set_recorder_def ondataavailable_def split: if_splits)
next
  case (StopEvent r url)
  with assms show ?thesis
    by (auto simp: webm_only_def set_recorder_def onstop_def new_Blob_def emit_def Let_def
        split: if_splits)
qed

lemma webm_run:
  "run parse c es = Some c' \<Longrightarrow> webm_only c \<Longrightarrow> webm_only c'"
proof (induction es arbitrary: c)
  case Nil
  then show ?case by simp
next
  case (Cons e es)
  from Cons.prems(1) obtain d where d: "step parse c e = Some d" and r: "run parse d es = Some c'"
    by (auto split: option.splits)
  from Cons.IH [OF r webm_step [OF Cons.prems(2) d]] show ?case .
qed

lemma held_audio_is_webm:
  assumes "run parse initial es = Some c" and "audioBlob c = Some b"
  shows "blob_type b = ''audio/webm''"
proof -
  have "webm_only initial" by (simp add: webm_only_def initial_def)
  from webm_run [OF assms(1) this] assms(2) show ?thesis
    by (simp add: webm_only_def)
qed

end
